theory Spec2Isabelle
  imports Main
begin

section \<open>The taxonomy table and the form record\<close>

text \<open>
  Both pages declare the same object literal \<^verbatim>\<open>ncoData\<close>. A JavaScript object with
  string keys is an association list in insertion order: \<^verbatim>\<open>Object.keys\<close> is the list
  of its keys, and a property read \<^verbatim>\<open>obj[k]\<close> is \<open>map_of obj k\<close>, with \<open>None\<close>
  for \<^verbatim>\<open>undefined\<close>. Only own properties are modelled: the selects of the pages
  offer own keys and the empty string, never a name inherited from the prototype.
\<close>

type_synonym 'v js_object = "(string \<times> 'v) list"

definition ncoData :: "string list js_object js_object js_object" where
  "ncoData =
    [(''Division A'',
        [(''Sub-Division A1'',
            [(''Group A1-1'', [''Family A1-1-1'', ''Family A1-1-2'']),
             (''Group A1-2'', [''Family A1-2-1'', ''Family A1-2-2''])]),
         (''Sub-Division A2'',
            [(''Group A2-1'', [''Family A2-1-1'']),
             (''Group A2-2'', [''Family A2-2-1'', ''Family A2-2-2''])])]),
     (''Division B'',
        [(''Sub-Division B1'',
            [(''Group B1-1'', [''Family B1-1-1'', ''Family B1-1-2'']),
             (''Group B1-2'', [''Family B1-2-1''])])])]"

definition Object_keys :: "'v js_object \<Rightarrow> string list" where
  "Object_keys obj = map fst obj"

definition divisions :: "string list" where
  "divisions = Object_keys ncoData"

text \<open>
  The wizard's \<^verbatim>\<open>FormData\<close> is the base record; the single page's adds \<^verbatim>\<open>title\<close>
  (and calls the confidence field \<^verbatim>\<open>confidenceScore\<close>). A string is the list of its
  code units, so \<^verbatim>\<open>!s\<close> is \<open>s = []\<close> and \<^verbatim>\<open>s.length\<close> is \<open>length s\<close>.
\<close>

record FormData =
  ncoCode :: string
  division :: string
  subDivision :: string
  group :: string
  family :: string
  description :: string
  confidence :: "int list"

record SingleFormData = FormData +
  title :: string

datatype error = TypeError

section \<open>Option lists (the three useMemo bodies)\<close>

text \<open>
  Reading a property of \<^verbatim>\<open>undefined\<close> throws; \<^verbatim>\<open>x || {}\<close> replaces an
  \<^verbatim>\<open>undefined\<close> by the empty object. \<^verbatim>\<open>subDivisions\<close> guards the division lookup,
  \<^verbatim>\<open>groups\<close> guards only the sub-division lookup, \<^verbatim>\<open>families\<close> only the group
  lookup.
\<close>

definition subDivisions :: "'a FormData_scheme \<Rightarrow> string list" where
  "subDivisions formData =
    (if division formData = [] then []
     else Object_keys (case map_of ncoData (division formData) of
                         None \<Rightarrow> [] | Some divisionData \<Rightarrow> divisionData))"

definition groups :: "'a FormData_scheme \<Rightarrow> error + string list" where
  "groups formData =
    (if division formData = [] \<or> subDivision formData = [] then Inr []
     else case map_of ncoData (division formData) of
            None \<Rightarrow> Inl TypeError
          | Some divisionData \<Rightarrow>
              Inr (Object_keys (case map_of divisionData (subDivision formData) of
                                  None \<Rightarrow> [] | Some subDivisionData \<Rightarrow> subDivisionData)))"

definition families :: "'a FormData_scheme \<Rightarrow> error + string list" where
  "families formData =
    (if division formData = [] \<or> subDivision formData = [] \<or> group formData = [] then Inr []
     else case map_of ncoData (division formData) of
            None \<Rightarrow> Inl TypeError
          | Some divisionData \<Rightarrow>
              (case map_of divisionData (subDivision formData) of
                 None \<Rightarrow> Inl TypeError
               | Some subDivisionData \<Rightarrow>
                   Inr (case map_of subDivisionData (group formData) of
                          None \<Rightarrow> [] | Some fs \<Rightarrow> fs)))"

section \<open>Validation\<close>

record ValidationResult =
  isValid :: bool
  errors :: "string js_object"

text \<open>
  An assignment \<^verbatim>\<open>errors.k = m\<close> overwrites the entry of \<open>k\<close> in place, or appends
  one when \<open>k\<close> is not yet a key; \<^verbatim>\<open>delete errors[k]\<close> removes the entry.
\<close>

fun js_assign :: "'v js_object \<Rightarrow> string \<Rightarrow> 'v \<Rightarrow> 'v js_object" where
  "js_assign [] k v = [(k, v)]"
| "js_assign (p # ps) k v = (if fst p = k then (k, v) # ps else p # js_assign ps k v)"

definition js_delete :: "'v js_object \<Rightarrow> string \<Rightarrow> 'v js_object" where
  "js_delete obj k = filter (\<lambda>p. fst p \<noteq> k) obj"

text \<open>The statement \<^verbatim>\<open>if (c) errors.k = m\<close>.\<close>

definition assign_if :: "bool \<Rightarrow> string \<Rightarrow> 'v \<Rightarrow> 'v js_object \<Rightarrow> 'v js_object" where
  "assign_if c k v obj = (if c then js_assign obj k v else obj)"

definition validateForm :: "SingleFormData \<Rightarrow> ValidationResult" where
  "validateForm data =
    (let errors0 = [];
         errors1 = assign_if (ncoCode data = []) ''ncoCode'' ''NCO Code is required'' errors0;
         errors2 = assign_if (title data = []) ''title'' ''Title is required'' errors1;
         errors3 = assign_if (description data = [] \<or> length (description data) < 10)
                     ''description'' ''Description must be at least 10 characters'' errors2;
         errors4 = assign_if (division data = []) ''division'' ''Division is required'' errors3;
         errors5 = assign_if (subDivision data = []) ''subDivision'' ''Sub-Division is required''
                     errors4;
         errors6 = assign_if (group data = []) ''group'' ''Group is required'' errors5;
         errors7 = assign_if (family data = []) ''family'' ''Family is required'' errors6
     in \<lparr>isValid = (length (Object_keys errors7) = 0), errors = errors7\<rparr>)"

definition validateNcoDetails :: "'a FormData_scheme \<Rightarrow> ValidationResult" where
  "validateNcoDetails data =
    (let errors0 = [];
         errors1 = assign_if (ncoCode data = []) ''ncoCode'' ''NCO Code is required'' errors0;
         errors2 = assign_if (division data = []) ''division'' ''Division is required'' errors1;
         errors3 = assign_if (subDivision data = []) ''subDivision'' ''Sub-Division is required''
                     errors2;
         errors4 = assign_if (group data = []) ''group'' ''Group is required'' errors3;
         errors5 = assign_if (family data = []) ''family'' ''Family is required'' errors4
     in \<lparr>isValid = (length (Object_keys errors5) = 0), errors = errors5\<rparr>)"

definition validateNcoReview :: "'a FormData_scheme \<Rightarrow> ValidationResult" where
  "validateNcoReview data =
    (let errors0 = [];
         errors1 = assign_if (description data = [] \<or> length (description data) < 10)
                     ''description'' ''Description must be at least 10 characters'' errors0
     in \<lparr>isValid = (length (Object_keys errors1) = 0), errors = errors1\<rparr>)"

section \<open>Rendering and the cascade effects\<close>

text \<open>
  A function component is re-run (rendered) after every state update. In a render,
  \<^verbatim>\<open>useMemo\<close> re-evaluates its body when one of its dependencies differs from the
  previous render's (always on the first render) and otherwise returns the cached
  value; an exception thrown by a body aborts the render, and without an error
  boundary the page is gone. After a committed render, each \<^verbatim>\<open>useEffect\<close> whose
  dependency differs from the previous render's runs, in source order (all of them
  after the first render); the updaters they pass to \<^verbatim>\<open>setFormData\<close> are applied in
  that order, and the component renders again. The dependencies of the memos and the
  effects are \<^verbatim>\<open>formData.division\<close>, \<^verbatim>\<open>formData.subDivision\<close> and
  \<^verbatim>\<open>formData.group\<close> (\<^verbatim>\<open>setFormData\<close> never changes).
\<close>

datatype variant = SinglePage | Wizard

type_synonym deps = "string \<times> string \<times> string"

definition deps_of :: "'a FormData_scheme \<Rightarrow> deps" where
  "deps_of formData = (division formData, subDivision formData, group formData)"

text \<open>
  The previous render's dependencies are \<open>None\<close> on the first render. A render
  evaluates the stale memos in source order; \<^verbatim>\<open>subDivisions\<close> cannot throw, so
  \<open>render_memos\<close> asks only whether \<^verbatim>\<open>groups\<close> (dependencies: division and
  sub-division) or \<^verbatim>\<open>families\<close> (all three) does.
\<close>

definition division_changed :: "deps option \<Rightarrow> 'a FormData_scheme \<Rightarrow> bool" where
  "division_changed prev formData =
    (case prev of None \<Rightarrow> True | Some (d, s, g) \<Rightarrow> d \<noteq> division formData)"

definition subDivision_changed :: "deps option \<Rightarrow> 'a FormData_scheme \<Rightarrow> bool" where
  "subDivision_changed prev formData =
    (case prev of None \<Rightarrow> True | Some (d, s, g) \<Rightarrow> s \<noteq> subDivision formData)"

definition group_changed :: "deps option \<Rightarrow> 'a FormData_scheme \<Rightarrow> bool" where
  "group_changed prev formData =
    (case prev of None \<Rightarrow> True | Some (d, s, g) \<Rightarrow> g \<noteq> group formData)"

definition render_memos :: "deps option \<Rightarrow> 'a FormData_scheme \<Rightarrow> error + unit" where
  "render_memos prev formData =
    (if (division_changed prev formData \<or> subDivision_changed prev formData)
        \<and> groups formData = Inl TypeError
     then Inl TypeError
     else if (division_changed prev formData \<or> subDivision_changed prev formData
              \<or> group_changed prev formData)
             \<and> families formData = Inl TypeError
     then Inl TypeError
     else Inr ())"

text \<open>
  The updaters of the three effects. The single page's clear every level below the
  changed one; the wizard's clear one level each and rely on the next effect.
\<close>

fun effect_division :: "variant \<Rightarrow> 'a FormData_scheme \<Rightarrow> 'a FormData_scheme" where
  "effect_division SinglePage prev = prev\<lparr>subDivision := [], group := [], family := []\<rparr>"
| "effect_division Wizard prev = prev\<lparr>subDivision := []\<rparr>"

fun effect_subDivision :: "variant \<Rightarrow> 'a FormData_scheme \<Rightarrow> 'a FormData_scheme" where
  "effect_subDivision SinglePage prev = prev\<lparr>group := [], family := []\<rparr>"
| "effect_subDivision Wizard prev = prev\<lparr>group := []\<rparr>"

fun effect_group :: "variant \<Rightarrow> 'a FormData_scheme \<Rightarrow> 'a FormData_scheme" where
  "effect_group v prev = prev\<lparr>family := []\<rparr>"

definition run_effects :: "variant \<Rightarrow> deps option \<Rightarrow> 'a FormData_scheme \<Rightarrow> 'a FormData_scheme" where
  "run_effects v prev formData =
    (let fd1 = (if division_changed prev formData then effect_division v formData else formData);
         fd2 = (if subDivision_changed prev formData then effect_subDivision v fd1 else fd1);
         fd3 = (if group_changed prev formData then effect_group v fd2 else fd2)
     in fd3)"

text \<open>
  The render loop after a state update: render (a memo may throw); when no dependency
  changed the component is quiescent; otherwise the effects run and it renders again.
\<close>

function settle :: "variant \<Rightarrow> deps \<Rightarrow> 'a FormData_scheme \<Rightarrow> error + 'a FormData_scheme" where
  "settle v prev formData =
    (if render_memos (Some prev) formData = Inl TypeError then Inl TypeError
     else if deps_of formData = prev then Inr formData
     else settle v (deps_of formData) (run_effects v (Some prev) formData))"
  by pat_completeness auto

definition filled :: "'a FormData_scheme \<Rightarrow> nat" where
  "filled formData =
    (if subDivision formData = [] then 0 else 1) + (if group formData = [] then 0 else 1)
    + (if family formData = [] then 0 else 1)"

lemma settle_measure:
  "deps_of formData \<noteq> prev \<Longrightarrow>
   2 * filled (run_effects v (Some prev) formData)
     + (if deps_of (run_effects v (Some prev) formData) = deps_of formData then 0 else 1)
   < 2 * filled formData + 1"
  by (cases v; cases prev)
     (auto simp: filled_def deps_of_def run_effects_def division_changed_def
        subDivision_changed_def group_changed_def Let_def)

termination settle
proof (relation "measure (\<lambda>(v, prev, formData).
        2 * filled formData + (if deps_of formData = prev then 0 else 1))")
  fix v :: variant and prev :: deps and formData :: "'a FormData_scheme"
  assume "deps_of formData \<noteq> prev"
  then show "((v, deps_of formData, run_effects v (Some prev) formData), (v, prev, formData))
      \<in> measure (\<lambda>(v, prev, formData).
        2 * filled formData + (if deps_of formData = prev then 0 else 1))"
    using settle_measure [of formData prev v] by simp
qed simp

declare settle.simps [simp del]

text \<open>Mounting a form: the first render, all three effects, then the loop.\<close>

definition mount :: "variant \<Rightarrow> 'a FormData_scheme \<Rightarrow> error + 'a FormData_scheme" where
  "mount v formData =
    (if render_memos None formData = Inl TypeError then Inl TypeError
     else settle v (deps_of formData) (run_effects v None formData))"

section \<open>Component state, field updates and notifications\<close>

text \<open>
  \<^verbatim>\<open>alert\<close> and \<^verbatim>\<open>showToast(title, description, type)\<close> are recorded in a log, in
  the order of the calls. The state of a form is its record, the \<^verbatim>\<open>errors\<close> state of
  the mounted form component and that log; the wizard adds \<^verbatim>\<open>currentStep\<close>
  (1: details, 2: review).
\<close>

datatype notification = Alert string | Toast string string string

record 'd FormState =
  formData :: 'd
  errorsState :: "string js_object"
  notifications :: "notification list"

record WizardState = "FormData FormState" +
  currentStep :: nat

text \<open>A call \<^verbatim>\<open>updateField(field, value)\<close>, well typed for the field.\<close>

datatype field_update =
  NcoCode string | Division string | SubDivision string | Group string | Family string
  | Description string | Confidence "int list"

fun assign_field :: "field_update \<Rightarrow> 'a FormData_scheme \<Rightarrow> 'a FormData_scheme" where
  "assign_field (NcoCode v) prev = prev\<lparr>ncoCode := v\<rparr>"
| "assign_field (Division v) prev = prev\<lparr>division := v\<rparr>"
| "assign_field (SubDivision v) prev = prev\<lparr>subDivision := v\<rparr>"
| "assign_field (Group v) prev = prev\<lparr>group := v\<rparr>"
| "assign_field (Family v) prev = prev\<lparr>family := v\<rparr>"
| "assign_field (Description v) prev = prev\<lparr>description := v\<rparr>"
| "assign_field (Confidence v) prev = prev\<lparr>confidence := v\<rparr>"

text \<open>
  What a \<^verbatim>\<open>select\<close> can report: the placeholder option, whose value is the empty
  string, or one of the listed options; nothing when it is disabled. The slider
  reports a one-element array with an integer between its bounds.
\<close>

definition select_offers :: "bool \<Rightarrow> string list \<Rightarrow> string \<Rightarrow> bool" where
  "select_offers disabled opts v = (\<not> disabled \<and> v \<in> set ([] # opts))"

definition slider_offers :: "int list \<Rightarrow> bool" where
  "slider_offers v = (case v of [n] \<Rightarrow> 0 \<le> n \<and> n \<le> 100 | _ \<Rightarrow> False)"

text \<open>The value a memo holds in a committed render (an empty list if it never had one).\<close>

definition shown :: "error + string list \<Rightarrow> string list" where
  "shown r = (case r of Inl e \<Rightarrow> [] | Inr opts \<Rightarrow> opts)"

section \<open>The single-page form (NcoSingleForm)\<close>

definition NcoSingleForm_initial :: SingleFormData where
  "NcoSingleForm_initial =
    \<lparr>ncoCode = [], division = [], subDivision = [], group = [], family = [],
     description = [], confidence = [50], title = []\<rparr>"

definition NcoSingleForm_mount :: "error + SingleFormData FormState" where
  "NcoSingleForm_mount =
    (case mount SinglePage NcoSingleForm_initial of
       Inl e \<Rightarrow> Inl e
     | Inr fd \<Rightarrow> Inr \<lparr>formData = fd, errorsState = [], notifications = []\<rparr>)"

datatype single_update = Field field_update | Title string

fun single_key :: "single_update \<Rightarrow> string" where
  "single_key (Field (NcoCode v)) = ''ncoCode''"
| "single_key (Field (Division v)) = ''division''"
| "single_key (Field (SubDivision v)) = ''subDivision''"
| "single_key (Field (Group v)) = ''group''"
| "single_key (Field (Family v)) = ''family''"
| "single_key (Field (Description v)) = ''description''"
| "single_key (Field (Confidence v)) = ''confidenceScore''"
| "single_key (Title v) = ''title''"

fun single_assign :: "single_update \<Rightarrow> SingleFormData \<Rightarrow> SingleFormData" where
  "single_assign (Field f) prev = assign_field f prev"
| "single_assign (Title v) prev = prev\<lparr>title := v\<rparr>"

text \<open>\<^verbatim>\<open>if (errors[field])\<close> holds when the key has a non-empty message.\<close>

definition NcoSingleForm_updateField ::
  "single_update \<Rightarrow> SingleFormData FormState \<Rightarrow> error + SingleFormData FormState" where
  "NcoSingleForm_updateField u s =
    (let errors' =
           (if (case map_of (errorsState s) (single_key u) of None \<Rightarrow> False | Some m \<Rightarrow> m \<noteq> [])
            then js_delete (errorsState s) (single_key u) else errorsState s)
     in case settle SinglePage (deps_of (formData s)) (single_assign u (formData s)) of
          Inl e \<Rightarrow> Inl e
        | Inr fd \<Rightarrow> Inr (s\<lparr>formData := fd, errorsState := errors'\<rparr>))"

definition NcoSingleForm_handleSubmit ::
  "SingleFormData FormState \<Rightarrow> error + SingleFormData FormState" where
  "NcoSingleForm_handleSubmit s =
    (let validation = validateForm (formData s);
         s' = (if isValid validation
               then s\<lparr>errorsState := [],
                      notifications := notifications s @ [Alert ''NCO entry saved successfully!'']\<rparr>
               else s\<lparr>errorsState := errors validation\<rparr>)
     in case settle SinglePage (deps_of (formData s)) (formData s') of
          Inl e \<Rightarrow> Inl e
        | Inr fd \<Rightarrow> Inr (s'\<lparr>formData := fd\<rparr>))"

datatype single_event = Input single_update | Submit

fun single_enabled :: "single_event \<Rightarrow> SingleFormData FormState \<Rightarrow> bool" where
  "single_enabled (Input (Field (Division v))) s = select_offers False divisions v"
| "single_enabled (Input (Field (SubDivision v))) s =
     select_offers (division (formData s) = []) (subDivisions (formData s)) v"
| "single_enabled (Input (Field (Group v))) s =
     select_offers (subDivision (formData s) = []) (shown (groups (formData s))) v"
| "single_enabled (Input (Field (Family v))) s =
     select_offers (group (formData s) = []) (shown (families (formData s))) v"
| "single_enabled (Input (Field (Confidence v))) s = slider_offers v"
| "single_enabled e s = True"

fun single_step ::
  "single_event \<Rightarrow> SingleFormData FormState \<Rightarrow> error + SingleFormData FormState" where
  "single_step (Input u) s = NcoSingleForm_updateField u s"
| "single_step Submit s = NcoSingleForm_handleSubmit s"

inductive single_reachable :: "SingleFormData FormState \<Rightarrow> bool" where
  mounted: "NcoSingleForm_mount = Inr s \<Longrightarrow> single_reachable s"
| event: "single_reachable s \<Longrightarrow> single_enabled e s \<Longrightarrow> single_step e s = Inr s'
          \<Longrightarrow> single_reachable s'"

section \<open>The wizard (NcoAdminApp, NcoFormDetails, NcoFormReview)\<close>

definition NcoAdminApp_initial :: FormData where
  "NcoAdminApp_initial =
    \<lparr>ncoCode = [], division = [], subDivision = [], group = [], family = [],
     description = [], confidence = [75]\<rparr>"

text \<open>
  Showing step 1 mounts a fresh \<^verbatim>\<open>NcoFormDetails\<close> (its \<^verbatim>\<open>errors\<close> start empty, its
  memos and effects run as on a first render); showing step 2 replaces it by a fresh
  \<^verbatim>\<open>NcoFormReview\<close>, which has no memo and no effect.
\<close>

definition show_details :: "WizardState \<Rightarrow> error + WizardState" where
  "show_details s =
    (case mount Wizard (formData s) of
       Inl e \<Rightarrow> Inl e
     | Inr fd \<Rightarrow> Inr (s\<lparr>formData := fd, errorsState := [], currentStep := 1\<rparr>))"

definition NcoAdminApp_mount :: "error + WizardState" where
  "NcoAdminApp_mount =
    show_details \<lparr>formData = NcoAdminApp_initial, errorsState = [], notifications = [],
                  currentStep = 1\<rparr>"

definition NcoAdminApp_handleNext :: "WizardState \<Rightarrow> WizardState" where
  "NcoAdminApp_handleNext s = s\<lparr>errorsState := [], currentStep := 2\<rparr>"

definition NcoAdminApp_handleBack :: "WizardState \<Rightarrow> error + WizardState" where
  "NcoAdminApp_handleBack s = show_details s"

definition NcoAdminApp_handleSubmit :: "WizardState \<Rightarrow> error + WizardState" where
  "NcoAdminApp_handleSubmit s = show_details (s\<lparr>formData := NcoAdminApp_initial\<rparr>)"

definition NcoFormDetails_updateField :: "field_update \<Rightarrow> WizardState \<Rightarrow> error + WizardState" where
  "NcoFormDetails_updateField f s =
    (case settle Wizard (deps_of (formData s)) (assign_field f (formData s)) of
       Inl e \<Rightarrow> Inl e
     | Inr fd \<Rightarrow> Inr (s\<lparr>formData := fd\<rparr>))"

definition NcoFormDetails_handleSubmit :: "WizardState \<Rightarrow> WizardState" where
  "NcoFormDetails_handleSubmit s =
    (let validation = validateNcoDetails (formData s)
     in if isValid validation then NcoAdminApp_handleNext (s\<lparr>errorsState := []\<rparr>)
        else s\<lparr>errorsState := errors validation\<rparr>)"

definition NcoFormReview_updateField :: "field_update \<Rightarrow> WizardState \<Rightarrow> WizardState" where
  "NcoFormReview_updateField f s = s\<lparr>formData := assign_field f (formData s)\<rparr>"

definition NcoFormReview_handleSubmitReview :: "WizardState \<Rightarrow> error + WizardState" where
  "NcoFormReview_handleSubmitReview s =
    (let validation = validateNcoReview (formData s)
     in if isValid validation
        then NcoAdminApp_handleSubmit
               (s\<lparr>errorsState := [],
                  notifications := notifications s @
                    [Toast ''success'' ''Submission Successful!''
                       (''NCO entry '' @ ncoCode (formData s) @ '' has been submitted.'')]\<rparr>)
        else Inr (s\<lparr>errorsState := errors validation\<rparr>))"

subsection \<open>The description suggestion\<close>

text \<open>
  The promise of the service either resolves with \<^verbatim>\<open>{success, description}\<close> or is
  rejected. The mock of the repository waits a second and resolves with a text built
  from the four fields of the request (division, sub-division, group, family).
\<close>

datatype suggestion = Resolved bool string | Rejected

type_synonym suggestion_request = "string \<times> string \<times> string \<times> string"

definition getNcoDescriptionSuggestion :: "suggestion_request \<Rightarrow> suggestion" where
  "getNcoDescriptionSuggestion data =
    (case data of (d, s, g, f) \<Rightarrow>
       Resolved True
         (''Professional role in '' @ f @ '' within '' @ g
          @ ''. Responsibilities include specialized tasks related to '' @ d
          @ '' operations and '' @ s @ '' management.''))"

definition suggestion_failed :: notification where
  "suggestion_failed =
    Toast ''error'' ''Suggestion Failed'' ''Could not generate a description. Please try again.''"

text \<open>
  What runs when the promise settles: the updater is applied to the record of that
  moment. No dependency of a memo or an effect changes, so the render that follows
  evaluates no memo and runs no effect.
\<close>

definition suggestion_settled :: "suggestion \<Rightarrow> WizardState \<Rightarrow> WizardState" where
  "suggestion_settled result s =
    (case result of
       Resolved success text \<Rightarrow>
         if success \<and> text \<noteq> []
         then s\<lparr>formData := (formData s)\<lparr>description := text\<rparr>,
                notifications := notifications s @
                  [Toast ''success'' ''Suggestion Ready''
                     ''An AI-generated description has been populated.'']\<rparr>
         else s\<lparr>notifications := notifications s @ [suggestion_failed]\<rparr>
     | Rejected \<Rightarrow> s\<lparr>notifications := notifications s @ [suggestion_failed]\<rparr>)"

text \<open>
  \<^verbatim>\<open>handleSuggestDescription\<close>: the request is read from the record at the click
  (\<open>clicked\<close>); the service answers; the result is applied to the state at that later
  moment (\<open>current\<close>).
\<close>

definition NcoFormReview_handleSuggestDescription ::
  "(suggestion_request \<Rightarrow> suggestion) \<Rightarrow> WizardState \<Rightarrow> WizardState \<Rightarrow> WizardState" where
  "NcoFormReview_handleSuggestDescription service clicked current =
    suggestion_settled
      (service (division (formData clicked), subDivision (formData clicked),
                group (formData clicked), family (formData clicked)))
      current"

subsection \<open>Events of the wizard\<close>

text \<open>
  \<^verbatim>\<open>FormSelect\<close> disables a select whose option list is empty as well. A pending
  suggestion may settle at any later moment, whatever is shown then.
\<close>

datatype wizard_event =
  DetailsInput field_update | DetailsSubmit | ReviewInput field_update
  | SuggestionSettled suggestion | Back | SubmitEntry

definition FormSelect_offers :: "bool \<Rightarrow> string list \<Rightarrow> string \<Rightarrow> bool" where
  "FormSelect_offers disabled opts v = select_offers (disabled \<or> length opts = 0) opts v"

fun details_offers :: "field_update \<Rightarrow> FormData \<Rightarrow> bool" where
  "details_offers (NcoCode v) fd = True"
| "details_offers (Division v) fd = FormSelect_offers False divisions v"
| "details_offers (SubDivision v) fd = FormSelect_offers (division fd = []) (subDivisions fd) v"
| "details_offers (Group v) fd = FormSelect_offers (subDivision fd = []) (shown (groups fd)) v"
| "details_offers (Family v) fd = FormSelect_offers (group fd = []) (shown (families fd)) v"
| "details_offers (Description v) fd = False"
| "details_offers (Confidence v) fd = False"

fun review_offers :: "field_update \<Rightarrow> bool" where
  "review_offers (Description v) = True"
| "review_offers (Confidence v) = slider_offers v"
| "review_offers f = False"

fun wizard_enabled :: "wizard_event \<Rightarrow> WizardState \<Rightarrow> bool" where
  "wizard_enabled (DetailsInput f) s = (currentStep s = 1 \<and> details_offers f (formData s))"
| "wizard_enabled DetailsSubmit s = (currentStep s = 1)"
| "wizard_enabled (ReviewInput f) s = (currentStep s = 2 \<and> review_offers f)"
| "wizard_enabled (SuggestionSettled r) s = True"
| "wizard_enabled Back s = (currentStep s = 2)"
| "wizard_enabled SubmitEntry s = (currentStep s = 2)"

fun wizard_step :: "wizard_event \<Rightarrow> WizardState \<Rightarrow> error + WizardState" where
  "wizard_step (DetailsInput f) s = NcoFormDetails_updateField f s"
| "wizard_step DetailsSubmit s = Inr (NcoFormDetails_handleSubmit s)"
| "wizard_step (ReviewInput f) s = Inr (NcoFormReview_updateField f s)"
| "wizard_step (SuggestionSettled r) s = Inr (suggestion_settled r s)"
| "wizard_step Back s = NcoAdminApp_handleBack s"
| "wizard_step SubmitEntry s = NcoFormReview_handleSubmitReview s"

inductive wizard_reachable :: "WizardState \<Rightarrow> bool" where
  mounted: "NcoAdminApp_mount = Inr s \<Longrightarrow> wizard_reachable s"
| event: "wizard_reachable s \<Longrightarrow> wizard_enabled e s \<Longrightarrow> wizard_step e s = Inr s'
          \<Longrightarrow> wizard_reachable s'"

section \<open>Referential integrity of the taxonomy fields\<close>

definition referentially_intact :: "'a FormData_scheme \<Rightarrow> bool" where
  "referentially_intact fd =
    ((subDivision fd = [] \<or>
        (case map_of ncoData (division fd) of
           None \<Rightarrow> False
         | Some divisionData \<Rightarrow> subDivision fd \<in> set (Object_keys divisionData)))
     \<and> (group fd = [] \<or>
        (case map_of ncoData (division fd) of
           None \<Rightarrow> False
         | Some divisionData \<Rightarrow>
             (case map_of divisionData (subDivision fd) of
                None \<Rightarrow> False
              | Some subDivisionData \<Rightarrow> group fd \<in> set (Object_keys subDivisionData))))
     \<and> (family fd = [] \<or>
        (case map_of ncoData (division fd) of
           None \<Rightarrow> False
         | Some divisionData \<Rightarrow>
             (case map_of divisionData (subDivision fd) of
                None \<Rightarrow> False
              | Some subDivisionData \<Rightarrow>
                  (case map_of subDivisionData (group fd) of
                     None \<Rightarrow> False
                   | Some fs \<Rightarrow> family fd \<in> set fs)))))"

section \<open>Definitions for the proofs\<close>

text \<open>
  \<open>cascade\<close> is the record the render loop ends in when no render throws: the division
  effect clears the sub-division; the group is cleared by the sub-division effect (in
  the single page by the division effect as well), which in the wizard also runs when
  the division effect has just emptied a sub-division; the family likewise.
\<close>

definition cascade :: "variant \<Rightarrow> deps \<Rightarrow> 'a FormData_scheme \<Rightarrow> 'a FormData_scheme" where
  "cascade v prev fd =
    (let dch = division_changed (Some prev) fd;
         sch = subDivision_changed (Some prev) fd;
         gch = group_changed (Some prev) fd;
         clear_group = (case v of SinglePage \<Rightarrow> dch \<or> sch
                                | Wizard \<Rightarrow> sch \<or> (dch \<and> subDivision fd \<noteq> []));
         clear_family = (case v of SinglePage \<Rightarrow> dch \<or> sch \<or> gch
                                 | Wizard \<Rightarrow> gch \<or> (clear_group \<and> group fd \<noteq> []))
     in fd\<lparr>subDivision := (if dch then [] else subDivision fd),
           group := (if clear_group then [] else group fd),
           family := (if clear_family then [] else family fd)\<rparr>)"

text \<open>
  \<open>offered\<close> is what the two pages have in common in what their selects can report:
  for the three lower levels the placeholder or a listed option.
\<close>

fun offered :: "field_update \<Rightarrow> 'a FormData_scheme \<Rightarrow> bool" where
  "offered (SubDivision v) fd = (v = [] \<or> v \<in> set (subDivisions fd))"
| "offered (Group v) fd = (v = [] \<or> v \<in> set (shown (groups fd)))"
| "offered (Family v) fd = (v = [] \<or> v \<in> set (shown (families fd)))"
| "offered f fd = True"

text \<open>
  The one update after which the first render throws (see \<open>wizard_step_throws_iff\<close>):
  another division than the current one, not the placeholder, while a sub-division and
  a group are selected.
\<close>

definition crashing_change :: "field_update \<Rightarrow> 'a FormData_scheme \<Rightarrow> bool" where
  "crashing_change f fd =
    (case f of
       Division d \<Rightarrow> d \<noteq> [] \<and> d \<noteq> division fd \<and> subDivision fd \<noteq> [] \<and> group fd \<noteq> []
     | _ \<Rightarrow> False)"

section \<open>Example states\<close>

definition example_record :: FormData where
  "example_record =
    \<lparr>ncoCode = ''1111'', division = ''Division A'', subDivision = ''Sub-Division A1'',
     group = ''Group A1-1'', family = ''Family A1-1-1'', description = [], confidence = [75]\<rparr>"

definition example_details :: WizardState where
  "example_details =
    \<lparr>formData = example_record, errorsState = [], notifications = [], currentStep = 1\<rparr>"

definition example_review :: WizardState where
  "example_review =
    \<lparr>formData = example_record\<lparr>description := ''Plans and directs work.''\<rparr>,
     errorsState = [], notifications = [], currentStep = 2\<rparr>"

definition example_single :: "SingleFormData FormState" where
  "example_single =
    \<lparr>formData =
       \<lparr>ncoCode = ''1111'', division = ''Division A'', subDivision = ''Sub-Division A1'',
        group = ''Group A1-1'', family = ''Family A1-1-1'',
        description = ''Plans and directs work.'', confidence = [50], title = ''Manager''\<rparr>,
     errorsState = [(''title'', ''Title is required'')], notifications = []\<rparr>"

definition example_single_taxonomy :: "SingleFormData FormState" where
  "example_single_taxonomy =
    \<lparr>formData = NcoSingleForm_initial\<lparr>division := ''Division A'',
         subDivision := ''Sub-Division A1'', group := ''Group A1-1''\<rparr>,
     errorsState = [], notifications = []\<rparr>"

section \<open>The render loop in closed form\<close>

text \<open>
  The loop throws exactly when its first render does: every later render only sees
  fields the effects have cleared, for which the memos return before any lookup.
  Otherwise it ends in the record \<open>cascade\<close> describes.
\<close>

lemmas changed_defs = division_changed_def subDivision_changed_def group_changed_def

lemma run_effects_quiet: "run_effects v (Some (deps_of fd)) fd = fd"
  by (simp add: run_effects_def deps_of_def changed_defs)

lemma render_quiet: "render_memos (Some (deps_of fd)) fd = Inr ()"
  by (simp add: render_memos_def deps_of_def changed_defs)

lemma settle_quiet: "settle v (deps_of fd) fd = Inr fd"
  by (subst settle.simps) (simp add: render_quiet)

lemma run_effects_alt:
  "run_effects v prev fd =
     fd\<lparr>subDivision := (if division_changed prev fd then [] else subDivision fd),
        group := (if (v = SinglePage \<and> division_changed prev fd) \<or> subDivision_changed prev fd
                  then [] else group fd),
        family := (if (v = SinglePage \<and> (division_changed prev fd \<or> subDivision_changed prev fd))
                      \<or> group_changed prev fd
                   then [] else family fd)\<rparr>"
  by (cases v) (simp_all add: run_effects_def Let_def)

lemma cascade_quiet: "cascade v (deps_of fd) fd = fd"
  by (cases v) (simp_all add: cascade_def deps_of_def changed_defs)

lemma render_after_effects:
  "render_memos (Some (deps_of fd)) (run_effects v prev fd) = Inr ()"
  by (simp add: render_memos_def run_effects_alt deps_of_def changed_defs
        groups_def families_def)

lemma cascade_step:
  "cascade v (deps_of fd) (run_effects v (Some prev) fd) = cascade v prev fd"
  by (cases v; cases prev)
     (simp_all add: cascade_def run_effects_alt deps_of_def changed_defs)

lemma settle_eq:
  "settle v prev fd =
    (if render_memos (Some prev) fd = Inl TypeError then Inl TypeError
     else Inr (cascade v prev fd))"
proof (induction v prev fd rule: settle.induct)
  case (1 v prev formData)
  show ?case
  proof (cases "render_memos (Some prev) formData = Inl TypeError")
    case True
    then show ?thesis by (subst settle.simps) simp
  next
    case ok: False
    show ?thesis
    proof (cases "deps_of formData = prev")
      case True
      then show ?thesis using ok cascade_quiet [of v formData]
        by (subst settle.simps) auto
    next
      case False
      have "settle v prev formData = settle v (deps_of formData) (run_effects v (Some prev) formData)"
        using ok False by (subst settle.simps) simp
      also have "\<dots> = Inr (cascade v (deps_of formData) (run_effects v (Some prev) formData))"
        using "1.IH" [OF ok False] by (simp add: render_after_effects)
      finally show ?thesis using ok by (simp add: cascade_step)
    qed
  qed
qed


lemma cascade_mounted:
  "cascade v (deps_of fd) (run_effects v None fd) = fd\<lparr>subDivision := [], group := [], family := []\<rparr>"
  by (cases v) (simp_all add: cascade_def run_effects_alt deps_of_def changed_defs)

lemma mount_eq:
  "mount v fd =
    (if render_memos None fd = Inl TypeError then Inl TypeError
     else Inr (fd\<lparr>subDivision := [], group := [], family := []\<rparr>))"
  by (simp add: mount_def settle_eq render_after_effects cascade_mounted)

lemma no_empty_division: "map_of ncoData [] = None"
  by (simp add: ncoData_def)

lemma no_empty_subDivision: "map_of ncoData d = Some dd \<Longrightarrow> map_of dd [] = None"
  by (auto simp: ncoData_def split: if_splits)

lemma no_empty_group:
  "map_of ncoData d = Some dd \<Longrightarrow> map_of dd s = Some sd \<Longrightarrow> map_of sd [] = None"
  by (auto simp: ncoData_def split: if_splits)

lemma intact_group_unset:
  "referentially_intact fd \<Longrightarrow> subDivision fd = [] \<Longrightarrow> group fd = []"
  by (auto simp: referentially_intact_def no_empty_subDivision split: option.splits)

lemma intact_family_unset:
  "referentially_intact fd \<Longrightarrow> group fd = [] \<Longrightarrow> family fd = []"
  by (auto simp: referentially_intact_def no_empty_group split: option.splits)

lemma intact_cleared:
  "subDivision fd = [] \<Longrightarrow> group fd = [] \<Longrightarrow> family fd = [] \<Longrightarrow> referentially_intact fd"
  by (simp add: referentially_intact_def)

lemma intact_cong:
  "deps_of fd' = deps_of fd \<Longrightarrow> family fd' = family fd
   \<Longrightarrow> referentially_intact fd' = referentially_intact fd"
  by (auto simp: referentially_intact_def deps_of_def split: option.splits)

section \<open>What a field update does to the taxonomy fields\<close>

lemma key_lookup: "k \<in> set (Object_keys obj) \<Longrightarrow> \<exists>x. map_of obj k = Some x"
  by (cases "map_of obj k") (auto simp: Object_keys_def map_of_eq_None_iff)

lemma cascade_unrelated: "deps_of fd' = prev \<Longrightarrow> cascade v prev fd' = fd'"
  using cascade_quiet [of v fd'] by simp

lemma cascade_division:
  assumes "referentially_intact fd" and "d \<noteq> division fd"
  shows "cascade v (deps_of fd) (fd\<lparr>division := d\<rparr>) =
           fd\<lparr>division := d, subDivision := [], group := [], family := []\<rparr>"
proof -
  have g: "subDivision fd = [] \<Longrightarrow> group fd = []"
    using assms(1) by (rule intact_group_unset)
  have f: "group fd = [] \<Longrightarrow> family fd = []"
    using assms(1) by (rule intact_family_unset)
  show ?thesis
    using assms(2) g f
    by (cases v) (auto simp: cascade_def deps_of_def changed_defs)
qed

lemma cascade_subDivision:
  assumes "referentially_intact fd" and "s \<noteq> subDivision fd"
  shows "cascade v (deps_of fd) (fd\<lparr>subDivision := s\<rparr>) =
           fd\<lparr>subDivision := s, group := [], family := []\<rparr>"
proof -
  have f: "group fd = [] \<Longrightarrow> family fd = []"
    using assms(1) by (rule intact_family_unset)
  show ?thesis
    using assms(2) f
    by (cases v) (auto simp: cascade_def deps_of_def changed_defs)
qed

lemma cascade_group:
  assumes "g \<noteq> group fd"
  shows "cascade v (deps_of fd) (fd\<lparr>group := g\<rparr>) = fd\<lparr>group := g, family := []\<rparr>"
  using assms by (cases v) (auto simp: cascade_def deps_of_def changed_defs)


lemma intact_subDivision_offered:
  assumes "referentially_intact fd" and "v = [] \<or> v \<in> set (subDivisions fd)"
  shows "referentially_intact (fd\<lparr>subDivision := v, group := [], family := []\<rparr>)"
  using assms(2)
  by (auto simp: referentially_intact_def subDivisions_def Object_keys_def
        split: option.splits if_splits)

lemma intact_group_offered:
  assumes "referentially_intact fd" and "v = [] \<or> v \<in> set (shown (groups fd))"
  shows "referentially_intact (fd\<lparr>group := v, family := []\<rparr>)"
  using assms
  by (auto simp: referentially_intact_def groups_def shown_def Object_keys_def
        split: option.splits if_splits)

lemma intact_family_offered:
  assumes "referentially_intact fd" and "v = [] \<or> v \<in> set (shown (families fd))"
  shows "referentially_intact (fd\<lparr>family := v\<rparr>)"
  using assms
  by (auto simp: referentially_intact_def families_def shown_def Object_keys_def
        split: option.splits if_splits)

lemma intact_after_update:
  assumes "referentially_intact fd" and "offered f fd"
  shows "referentially_intact (cascade v (deps_of fd) (assign_field f fd))"
proof (cases f)
  case (NcoCode x)
  then show ?thesis using assms(1)
    by (simp add: cascade_unrelated deps_of_def intact_cong [of "fd\<lparr>ncoCode := x\<rparr>" fd])
next
  case (Division d)
  show ?thesis
  proof (cases "d = division fd")
    case True
    then show ?thesis using Division assms(1) by (simp add: cascade_quiet)
  next
    case False
    then show ?thesis using Division assms(1)
      by (simp add: cascade_division intact_cleared)
  qed
next
  case (SubDivision s)
  show ?thesis
  proof (cases "s = subDivision fd")
    case True
    then show ?thesis using SubDivision assms(1) by (simp add: cascade_quiet)
  next
    case False
    then show ?thesis using SubDivision assms
      by (simp add: cascade_subDivision intact_subDivision_offered)
  qed
next
  case (Group g)
  show ?thesis
  proof (cases "g = group fd")
    case True
    then show ?thesis using Group assms(1) by (simp add: cascade_quiet)
  next
    case False
    then show ?thesis using Group assms
      by (simp add: cascade_group intact_group_offered)
  qed
next
  case (Family x)
  then show ?thesis using assms
    by (simp add: cascade_unrelated deps_of_def intact_family_offered)
next
  case (Description x)
  then show ?thesis using assms(1)
    by (simp add: cascade_unrelated deps_of_def intact_cong [of "fd\<lparr>description := x\<rparr>" fd])
next
  case (Confidence x)
  then show ?thesis using assms(1)
    by (simp add: cascade_unrelated deps_of_def intact_cong [of "fd\<lparr>confidence := x\<rparr>" fd])
qed

section \<open>Referential integrity is an invariant\<close>

lemma single_enabled_offered:
  "single_enabled (Input (Field f)) s \<Longrightarrow> offered f (formData s)"
  by (cases f) (auto simp: select_offers_def)

lemma details_offers_offered: "details_offers f fd \<Longrightarrow> offered f fd"
  by (cases f) (auto simp: FormSelect_offers_def select_offers_def)

lemma settle_intact:
  assumes "referentially_intact fd" and "offered f fd"
      and "settle v (deps_of fd) (assign_field f fd) = Inr fd'"
  shows "referentially_intact fd'"
  using assms(3) intact_after_update [OF assms(1,2), of v]
  by (auto simp: settle_eq split: if_splits)

lemma mount_intact: "mount v fd = Inr fd' \<Longrightarrow> referentially_intact fd'"
  by (auto simp: mount_eq intact_cleared split: if_splits)


lemma single_step_intact:
  assumes "referentially_intact (formData s)" and "single_enabled e s"
      and "single_step e s = Inr s'"
  shows "referentially_intact (formData s')"
proof (cases e)
  case (Input u)
  show ?thesis
  proof (cases u)
    case (Field f)
    have "offered f (formData s)"
      using assms(2) Input Field by (simp add: single_enabled_offered)
    then show ?thesis
      using assms(1,3) Input Field
      by (auto simp: NcoSingleForm_updateField_def Let_def split: sum.splits
            dest: settle_intact)
  next
    case (Title x)
    have "deps_of ((formData s)\<lparr>title := x\<rparr>) = deps_of (formData s)"
      by (simp add: deps_of_def)
    then have "settle SinglePage (deps_of (formData s)) ((formData s)\<lparr>title := x\<rparr>)
        = Inr ((formData s)\<lparr>title := x\<rparr>)"
      using settle_quiet [of SinglePage "(formData s)\<lparr>title := x\<rparr>"] by simp
    then show ?thesis
      using assms(1,3) Input Title
        intact_cong [of "(formData s)\<lparr>title := x\<rparr>" "formData s"]
      by (auto simp: NcoSingleForm_updateField_def Let_def deps_of_def)
  qed
next
  case Submit
  then show ?thesis
    using assms(1,3)
    by (auto simp: NcoSingleForm_handleSubmit_def Let_def settle_quiet split: if_splits)
qed


lemma show_details_intact: "show_details s = Inr s' \<Longrightarrow> referentially_intact (formData s')"
  by (auto simp: show_details_def split: sum.splits dest: mount_intact)

lemma intact_description:
  "referentially_intact (fd\<lparr>description := x\<rparr>) = referentially_intact fd"
  by (rule intact_cong) (simp_all add: deps_of_def)

lemma intact_confidence:
  "referentially_intact (fd\<lparr>confidence := x\<rparr>) = referentially_intact fd"
  by (rule intact_cong) (simp_all add: deps_of_def)

lemma review_input_intact:
  "review_offers f \<Longrightarrow> referentially_intact (assign_field f fd) = referentially_intact fd"
  by (cases f) (simp_all add: intact_description intact_confidence)

lemma suggestion_settled_intact:
  "referentially_intact (formData (suggestion_settled r s)) = referentially_intact (formData s)"
proof -
  have "deps_of (formData (suggestion_settled r s)) = deps_of (formData s)"
    and "family (formData (suggestion_settled r s)) = family (formData s)"
    by (auto simp: suggestion_settled_def deps_of_def split: suggestion.splits)
  then show ?thesis by (rule intact_cong)
qed


lemma wizard_step_intact:
  assumes "referentially_intact (formData s)" and "wizard_enabled e s"
      and "wizard_step e s = Inr s'"
  shows "referentially_intact (formData s')"
proof (cases e)
  case (DetailsInput f)
  have "offered f (formData s)"
    using assms(2) DetailsInput by (simp add: details_offers_offered)
  then show ?thesis
    using assms(1,3) DetailsInput
    by (auto simp: NcoFormDetails_updateField_def split: sum.splits dest: settle_intact)
next
  case DetailsSubmit
  then show ?thesis
    using assms(1,3)
    by (auto simp: NcoFormDetails_handleSubmit_def NcoAdminApp_handleNext_def Let_def
          split: if_splits)
next
  case (ReviewInput f)
  then show ?thesis
    using assms by (auto simp: NcoFormReview_updateField_def review_input_intact)
next
  case (SuggestionSettled r)
  then show ?thesis
    using assms(1,3) by (auto simp: suggestion_settled_intact)
next
  case Back
  then show ?thesis
    using assms(3) by (auto simp: NcoAdminApp_handleBack_def dest: show_details_intact)
next
  case SubmitEntry
  then show ?thesis
    using assms(1,3)
    by (auto simp: NcoFormReview_handleSubmitReview_def NcoAdminApp_handleSubmit_def Let_def
          split: if_splits dest: show_details_intact)
qed

lemma single_reachable_intact: "single_reachable s \<Longrightarrow> referentially_intact (formData s)"
proof (induction rule: single_reachable.induct)
  case (mounted s)
  then show ?case
    by (auto simp: NcoSingleForm_mount_def split: sum.splits dest: mount_intact)
next
  case (event s e s')
  then show ?case by (blast intro: single_step_intact)
qed

lemma wizard_reachable_intact: "wizard_reachable s \<Longrightarrow> referentially_intact (formData s)"
proof (induction rule: wizard_reachable.induct)
  case (mounted s)
  then show ?case
    by (auto simp: NcoAdminApp_mount_def dest: show_details_intact)
next
  case (event s e s')
  then show ?case by (blast intro: wizard_step_intact)
qed


section \<open>The validators\<close>

lemma map_of_js_assign: "map_of (js_assign obj k v) = (map_of obj)(k \<mapsto> v)"
  by (induction obj) auto

lemma map_of_assign_if:
  "map_of (assign_if c k v obj) = (\<lambda>x. if c \<and> x = k then Some v else map_of obj x)"
  by (auto simp: assign_if_def map_of_js_assign)

lemma assign_if_empty: "assign_if c k v obj = [] \<longleftrightarrow> \<not> c \<and> obj = []"
  by (cases obj) (auto simp: assign_if_def)

lemma Object_keys_empty: "Object_keys obj = [] \<longleftrightarrow> obj = []"
  by (simp add: Object_keys_def)

lemma validateNcoReview_eq:
  "validateNcoReview data =
    (if description data = [] \<or> length (description data) < 10
     then \<lparr>isValid = False,
           errors = [(''description'', ''Description must be at least 10 characters'')]\<rparr>
     else \<lparr>isValid = True, errors = []\<rparr>)"
  by (simp add: validateNcoReview_def Object_keys_def assign_if_def)

lemma isValid_validateNcoDetails:
  "isValid (validateNcoDetails data) \<longleftrightarrow>
     ncoCode data \<noteq> [] \<and> division data \<noteq> [] \<and> subDivision data \<noteq> [] \<and> group data \<noteq> []
     \<and> family data \<noteq> []"
  by (auto simp: validateNcoDetails_def Let_def Object_keys_empty assign_if_empty)

lemma isValid_validateForm:
  "isValid (validateForm data) \<longleftrightarrow>
     ncoCode data \<noteq> [] \<and> title data \<noteq> [] \<and> 10 \<le> length (description data)
     \<and> division data \<noteq> [] \<and> subDivision data \<noteq> [] \<and> group data \<noteq> [] \<and> family data \<noteq> []"
  by (auto simp: validateForm_def Let_def Object_keys_empty assign_if_empty)

lemma errors_validateNcoDetails:
  "map_of (errors (validateNcoDetails data)) =
    (\<lambda>x. if family data = [] \<and> x = ''family'' then Some ''Family is required''
         else if group data = [] \<and> x = ''group'' then Some ''Group is required''
         else if subDivision data = [] \<and> x = ''subDivision'' then Some ''Sub-Division is required''
         else if division data = [] \<and> x = ''division'' then Some ''Division is required''
         else if ncoCode data = [] \<and> x = ''ncoCode'' then Some ''NCO Code is required''
         else None)"
  by (simp add: validateNcoDetails_def Let_def map_of_assign_if split del: if_split cong: if_cong)

lemma errors_validateForm:
  "map_of (errors (validateForm data)) =
    (\<lambda>x. if family data = [] \<and> x = ''family'' then Some ''Family is required''
         else if group data = [] \<and> x = ''group'' then Some ''Group is required''
         else if subDivision data = [] \<and> x = ''subDivision'' then Some ''Sub-Division is required''
         else if division data = [] \<and> x = ''division'' then Some ''Division is required''
         else if (description data = [] \<or> length (description data) < 10) \<and> x = ''description''
           then Some ''Description must be at least 10 characters''
         else if title data = [] \<and> x = ''title'' then Some ''Title is required''
         else if ncoCode data = [] \<and> x = ''ncoCode'' then Some ''NCO Code is required''
         else None)"
  by (simp add: validateForm_def Let_def map_of_assign_if split del: if_split cong: if_cong)


text \<open>
  Claim C6. Review-profile validation flags \<^verbatim>\<open>description\<close>, with the fixed message,
  exactly when the description is empty or shorter than 10 code units; it is valid
  exactly when the description has at least 10. The description \<^verbatim>\<open>short\<close> is flagged;
  one of exactly 10 is not, and the result is valid.
\<close>

theorem validateNcoReview_description_rule:
  "errors (validateNcoReview data) =
     (if description data = [] \<or> length (description data) < 10
      then [(''description'', ''Description must be at least 10 characters'')] else [])
   \<and> isValid (validateNcoReview data) = (10 \<le> length (description data))
   \<and> errors (validateNcoReview (data\<lparr>description := ''short''\<rparr>)) =
       [(''description'', ''Description must be at least 10 characters'')]
   \<and> (length (description data) = 10 \<longrightarrow>
        errors (validateNcoReview data) = [] \<and> isValid (validateNcoReview data))"
  by (auto simp: validateNcoReview_eq)

theorem validateNcoReview_description_rule_witness:
  "length ''0123456789'' = 10
   \<and> errors (validateNcoReview (NcoAdminApp_initial\<lparr>description := ''0123456789''\<rparr>)) = []
   \<and> isValid (validateNcoReview (NcoAdminApp_initial\<lparr>description := ''0123456789''\<rparr>))"
  using validateNcoReview_description_rule
          [of "NcoAdminApp_initial\<lparr>description := ''0123456789''\<rparr>"]
  by simp

text \<open>
  Claim C5. On every record of the single page, the error map of \<^verbatim>\<open>validateForm\<close> is
  the union of the maps of \<^verbatim>\<open>validateNcoDetails\<close> and \<^verbatim>\<open>validateNcoReview\<close> on the
  same record and of the entry for an empty title, with the same message per field;
  it is valid exactly when that union is empty, that is when the code, the title and
  the four taxonomy fields are non-empty and the description has at least 10 code
  units. (The wizard's validators read only fields both records have.)
\<close>

theorem validateForm_is_union_of_profiles:
  "map_of (errors (validateForm data)) =
     map_of (errors (validateNcoDetails data)) ++ map_of (errors (validateNcoReview data))
     ++ (if title data = [] then [''title'' \<mapsto> ''Title is required''] else Map.empty)
   \<and> isValid (validateForm data) =
     (map_of (errors (validateNcoDetails data)) ++ map_of (errors (validateNcoReview data))
      ++ (if title data = [] then [''title'' \<mapsto> ''Title is required''] else Map.empty)
      = Map.empty)
   \<and> isValid (validateForm data) =
     (ncoCode data \<noteq> [] \<and> title data \<noteq> [] \<and> 10 \<le> length (description data)
      \<and> division data \<noteq> [] \<and> subDivision data \<noteq> [] \<and> group data \<noteq> [] \<and> family data \<noteq> [])"
proof -
  let ?u = "map_of (errors (validateNcoDetails data)) ++ map_of (errors (validateNcoReview data))
     ++ (if title data = [] then [''title'' \<mapsto> ''Title is required''] else Map.empty)"
  have union: "map_of (errors (validateForm data)) = ?u"
    unfolding errors_validateForm errors_validateNcoDetails
    by (rule ext) (simp add: validateNcoReview_eq map_add_def)
  have "isValid (validateForm data) = (errors (validateForm data) = [])"
    by (simp add: validateForm_def Let_def Object_keys_empty)
  also have "\<dots> = (map_of (errors (validateForm data)) = Map.empty)"
    by simp
  finally have valid: "isValid (validateForm data) = (?u = Map.empty)"
    using union by simp
  show ?thesis using union valid isValid_validateForm [of data] by blast
qed

theorem validateForm_is_union_of_profiles_witness:
  "map_of (errors (validateForm (NcoSingleForm_initial\<lparr>ncoCode := ''1111''\<rparr>))) ''title''
     = Some ''Title is required''
   \<and> map_of (errors (validateForm (NcoSingleForm_initial\<lparr>ncoCode := ''1111''\<rparr>))) ''ncoCode''
     = None
   \<and> \<not> isValid (validateForm (NcoSingleForm_initial\<lparr>ncoCode := ''1111''\<rparr>))"
  using validateForm_is_union_of_profiles [of "NcoSingleForm_initial\<lparr>ncoCode := ''1111''\<rparr>"]
  by (simp add: errors_validateNcoDetails validateNcoReview_eq NcoSingleForm_initial_def)

section \<open>The flow of the wizard\<close>

lemma validateNcoDetails_no_errors:
  "isValid (validateNcoDetails data) = (errors (validateNcoDetails data) = [])"
  by (simp add: validateNcoDetails_def Let_def Object_keys_empty)


text \<open>
  Claim C4. In the details step, submitting the form moves to the review step exactly
  when \<^verbatim>\<open>validateNcoDetails\<close> finds the record valid, that is when the code and the
  four taxonomy fields are non-empty. The record is unchanged either way; when
  invalid the step stays 1 and the (non-empty) error map of the validation becomes
  the \<^verbatim>\<open>errors\<close> state shown beside the fields.
\<close>

theorem details_submit_advances_iff_valid:
  assumes "currentStep s = 1"
  shows "isValid (validateNcoDetails (formData s)) =
           (ncoCode (formData s) \<noteq> [] \<and> division (formData s) \<noteq> []
            \<and> subDivision (formData s) \<noteq> [] \<and> group (formData s) \<noteq> []
            \<and> family (formData s) \<noteq> [])
   \<and> currentStep (NcoFormDetails_handleSubmit s) =
        (if isValid (validateNcoDetails (formData s)) then 2 else 1)
   \<and> formData (NcoFormDetails_handleSubmit s) = formData s
   \<and> notifications (NcoFormDetails_handleSubmit s) = notifications s
   \<and> errorsState (NcoFormDetails_handleSubmit s) =
        (if isValid (validateNcoDetails (formData s)) then []
         else errors (validateNcoDetails (formData s)))
   \<and> (\<not> isValid (validateNcoDetails (formData s)) \<longrightarrow>
        errors (validateNcoDetails (formData s)) \<noteq> [])"
  using assms
  by (simp add: NcoFormDetails_handleSubmit_def NcoAdminApp_handleNext_def Let_def
        isValid_validateNcoDetails [symmetric] validateNcoDetails_no_errors [symmetric])

theorem details_submit_advances_iff_valid_witness:
  "currentStep example_details = 1
   \<and> NcoFormDetails_handleSubmit example_details = example_details\<lparr>currentStep := 2\<rparr>
   \<and> currentStep (example_details\<lparr>formData := example_record\<lparr>family := []\<rparr>\<rparr>) = 1
   \<and> currentStep (NcoFormDetails_handleSubmit
         (example_details\<lparr>formData := example_record\<lparr>family := []\<rparr>\<rparr>)) = 1
   \<and> errorsState (NcoFormDetails_handleSubmit
         (example_details\<lparr>formData := example_record\<lparr>family := []\<rparr>\<rparr>)) =
       [(''family'', ''Family is required'')]"
proof -
  have a: "currentStep example_details = 1"
    by (simp add: example_details_def)
  have b: "currentStep (example_details\<lparr>formData := example_record\<lparr>family := []\<rparr>\<rparr>) = 1"
    by (simp add: example_details_def)
  have c: "errors (validateNcoDetails (example_record\<lparr>family := []\<rparr>)) =
      [(''family'', ''Family is required'')]"
    by (simp add: validateNcoDetails_def Let_def assign_if_def example_record_def)
  show ?thesis
    using details_submit_advances_iff_valid [OF a] details_submit_advances_iff_valid [OF b] c
    by (simp add: example_details_def example_record_def isValid_validateNcoDetails
          WizardState.equality)
qed


text \<open>
  Claim C3. In the review step, \<^verbatim>\<open>handleSubmitReview\<close> submits exactly when
  \<^verbatim>\<open>validateNcoReview\<close> finds the record valid (a non-empty description of at least
  10 code units). Then the record is reset to its defaults (every string empty,
  confidence 75), a success toast is raised and the step is 1 again; otherwise the
  record and the step stay as they are and the description error is shown.
\<close>

theorem review_submit_resets_or_reports:
  assumes "currentStep s = 2"
  shows "isValid (validateNcoReview (formData s)) =
           (description (formData s) \<noteq> [] \<and> 10 \<le> length (description (formData s)))
   \<and> (isValid (validateNcoReview (formData s)) \<longrightarrow>
        NcoFormReview_handleSubmitReview s =
          Inr \<lparr>formData = \<lparr>ncoCode = [], division = [], subDivision = [], group = [],
                             family = [], description = [], confidence = [75]\<rparr>,
               errorsState = [],
               notifications = notifications s @
                 [Toast ''success'' ''Submission Successful!''
                    (''NCO entry '' @ ncoCode (formData s) @ '' has been submitted.'')],
               currentStep = 1\<rparr>)
   \<and> (\<not> isValid (validateNcoReview (formData s)) \<longrightarrow>
        NcoFormReview_handleSubmitReview s =
          Inr (s\<lparr>errorsState :=
                    [(''description'', ''Description must be at least 10 characters'')]\<rparr>)
        \<and> currentStep (s\<lparr>errorsState :=
                    [(''description'', ''Description must be at least 10 characters'')]\<rparr>) = 2)"
proof -
  have initial: "mount Wizard NcoAdminApp_initial = Inr NcoAdminApp_initial"
    by (simp add: mount_eq render_memos_def groups_def families_def NcoAdminApp_initial_def)
  show ?thesis
    using assms
    by (cases s)
       (auto simp: NcoFormReview_handleSubmitReview_def NcoAdminApp_handleSubmit_def
          show_details_def validateNcoReview_eq initial [unfolded NcoAdminApp_initial_def]
          Let_def NcoAdminApp_initial_def)
qed

theorem review_submit_resets_or_reports_witness:
  "currentStep example_review = 2
   \<and> NcoFormReview_handleSubmitReview example_review =
       Inr \<lparr>formData = NcoAdminApp_initial, errorsState = [],
            notifications =
              [Toast ''success'' ''Submission Successful!'' ''NCO entry 1111 has been submitted.''],
            currentStep = 1\<rparr>
   \<and> currentStep (example_review\<lparr>formData := example_record\<rparr>) = 2
   \<and> NcoFormReview_handleSubmitReview (example_review\<lparr>formData := example_record\<rparr>) =
       Inr (example_review\<lparr>formData := example_record,
              errorsState := [(''description'', ''Description must be at least 10 characters'')]\<rparr>)"
  using review_submit_resets_or_reports [of example_review]
    review_submit_resets_or_reports [of "example_review\<lparr>formData := example_record\<rparr>"]
  by (simp add: example_review_def example_record_def NcoAdminApp_initial_def)


section \<open>The flow of the single page\<close>

text \<open>
  Claim C9. A submit of the single page whose validation succeeds leaves the record as
  it is: the only changes are the cleared error map and the alert. (No dependency
  changes, so the render that follows evaluates no memo and runs no effect.)
\<close>

theorem single_submit_keeps_record:
  "isValid (validateForm (formData s)) \<Longrightarrow>
   NcoSingleForm_handleSubmit s =
     Inr (s\<lparr>errorsState := [],
            notifications := notifications s @ [Alert ''NCO entry saved successfully!'']\<rparr>)"
  by (simp add: NcoSingleForm_handleSubmit_def Let_def settle_quiet)


theorem single_submit_keeps_record_witness:
  "isValid (validateForm (formData example_single))
   \<and> NcoSingleForm_handleSubmit example_single =
       Inr (example_single\<lparr>errorsState := [],
              notifications := [Alert ''NCO entry saved successfully!'']\<rparr>)"
proof -
  have v: "isValid (validateForm (formData example_single))"
    by (simp add: isValid_validateForm example_single_def)
  show ?thesis
    using v single_submit_keeps_record [OF v] by (simp add: example_single_def)
qed


section \<open>Reachable states\<close>

text \<open>
  The example states are reached from the mounted pages by events the pages offer, so
  the invariant below is not about an empty set of states.
\<close>

lemmas run_defs =
  mount_eq settle_eq render_memos_def changed_defs deps_of_def cascade_def
  groups_def families_def subDivisions_def shown_def ncoData_def divisions_def Object_keys_def
  select_offers_def FormSelect_offers_def

lemma example_single_taxonomy_reachable: "single_reachable example_single_taxonomy"
proof -
  let ?s0 = "\<lparr>formData = NcoSingleForm_initial, errorsState = [], notifications = []\<rparr>"
  let ?s1 = "?s0\<lparr>formData := NcoSingleForm_initial\<lparr>division := ''Division A''\<rparr>\<rparr>"
  let ?s2 = "?s0\<lparr>formData := NcoSingleForm_initial\<lparr>division := ''Division A'',
                 subDivision := ''Sub-Division A1''\<rparr>\<rparr>"
  have 0: "single_reachable ?s0"
    by (rule single_reachable.mounted)
       (simp add: NcoSingleForm_mount_def NcoSingleForm_initial_def run_defs)
  have 1: "single_reachable ?s1"
    by (rule single_reachable.event [OF 0, of "Input (Field (Division ''Division A''))"])
       (simp_all add: NcoSingleForm_updateField_def NcoSingleForm_initial_def run_defs)
  have 2: "single_reachable ?s2"
    by (rule single_reachable.event [OF 1, of "Input (Field (SubDivision ''Sub-Division A1''))"])
       (simp_all add: NcoSingleForm_updateField_def NcoSingleForm_initial_def run_defs)
  show ?thesis
    unfolding example_single_taxonomy_def
    by (rule single_reachable.event [OF 2, of "Input (Field (Group ''Group A1-1''))"])
       (simp_all add: NcoSingleForm_updateField_def NcoSingleForm_initial_def run_defs)
qed

lemma example_details_reachable: "wizard_reachable example_details"
proof -
  let ?s0 = "\<lparr>formData = NcoAdminApp_initial, errorsState = [], notifications = [],
              currentStep = 1\<rparr>"
  let ?f1 = "NcoAdminApp_initial\<lparr>ncoCode := ''1111''\<rparr>"
  let ?f2 = "?f1\<lparr>division := ''Division A''\<rparr>"
  let ?f3 = "?f2\<lparr>subDivision := ''Sub-Division A1''\<rparr>"
  let ?f4 = "?f3\<lparr>group := ''Group A1-1''\<rparr>"
  have 0: "wizard_reachable ?s0"
    by (rule wizard_reachable.mounted)
       (simp add: NcoAdminApp_mount_def show_details_def NcoAdminApp_initial_def run_defs)
  have 1: "wizard_reachable (?s0\<lparr>formData := ?f1\<rparr>)"
    by (rule wizard_reachable.event [OF 0, of "DetailsInput (NcoCode ''1111'')"])
       (simp_all add: NcoFormDetails_updateField_def NcoAdminApp_initial_def run_defs)
  have 2: "wizard_reachable (?s0\<lparr>formData := ?f2\<rparr>)"
    by (rule wizard_reachable.event [OF 1, of "DetailsInput (Division ''Division A'')"])
       (simp_all add: NcoFormDetails_updateField_def NcoAdminApp_initial_def run_defs)
  have 3: "wizard_reachable (?s0\<lparr>formData := ?f3\<rparr>)"
    by (rule wizard_reachable.event [OF 2, of "DetailsInput (SubDivision ''Sub-Division A1'')"])
       (simp_all add: NcoFormDetails_updateField_def NcoAdminApp_initial_def run_defs)
  have 4: "wizard_reachable (?s0\<lparr>formData := ?f4\<rparr>)"
    by (rule wizard_reachable.event [OF 3, of "DetailsInput (Group ''Group A1-1'')"])
       (simp_all add: NcoFormDetails_updateField_def NcoAdminApp_initial_def run_defs)
  show ?thesis
    unfolding example_details_def example_record_def
    by (rule wizard_reachable.event [OF 4, of "DetailsInput (Family ''Family A1-1-1'')"])
       (simp_all add: NcoFormDetails_updateField_def NcoAdminApp_initial_def run_defs)
qed

lemma example_review_reachable: "wizard_reachable example_review"
proof -
  have 1: "wizard_reachable (example_details\<lparr>currentStep := 2\<rparr>)"
    by (rule wizard_reachable.event [OF example_details_reachable, of DetailsSubmit])
       (simp_all add: NcoFormDetails_handleSubmit_def NcoAdminApp_handleNext_def Let_def
          isValid_validateNcoDetails example_details_def example_record_def)
  show ?thesis
    by (rule wizard_reachable.event
          [OF 1, of "ReviewInput (Description ''Plans and directs work.'')"])
       (simp_all add: NcoFormReview_updateField_def example_details_def example_review_def)
qed

lemma intact_renders: "referentially_intact fd \<Longrightarrow> render_memos prev fd = Inr ()"
  by (auto simp: render_memos_def referentially_intact_def groups_def families_def
        split: option.splits)

lemma division_option_renders:
  assumes "d \<in> set ([] # divisions)"
      and "d = [] \<or> subDivision fd = [] \<or> group fd = []"
  shows "render_memos prev (fd\<lparr>division := d\<rparr>) = Inr ()"
proof -
  have "d = [] \<or> (\<exists>x. map_of ncoData d = Some x)"
    using assms(1) by (auto simp: divisions_def dest: key_lookup)
  then show ?thesis
    using assms(2) by (auto simp: render_memos_def groups_def families_def)
qed

lemma cascade_division_single:
  "d \<noteq> division fd \<Longrightarrow>
   cascade SinglePage (deps_of fd) (fd\<lparr>division := d\<rparr>) =
     fd\<lparr>division := d, subDivision := [], group := [], family := []\<rparr>"
  by (simp add: cascade_def deps_of_def changed_defs)

text \<open>
  Claim C1. In every quiescent state either page can reach, the taxonomy fields are
  referentially intact: \<^verbatim>\<open>subDivision\<close> is empty or a key of the table under
  \<^verbatim>\<open>division\<close>, \<^verbatim>\<open>group\<close> is empty or a key under that sub-division, \<^verbatim>\<open>family\<close> is
  empty or a member of the list under that group. Every event the pages offer, with
  the cascade effects it triggers, leads from an intact state to an intact state
  whenever it leads to a state at all.
\<close>

theorem referential_integrity_invariant:
  "(single_reachable s \<longrightarrow> referentially_intact (formData s))
   \<and> (wizard_reachable w \<longrightarrow> referentially_intact (formData w))
   \<and> (referentially_intact (formData s0) \<and> single_enabled e s0 \<and> single_step e s0 = Inr s1
        \<longrightarrow> referentially_intact (formData s1))
   \<and> (referentially_intact (formData w0) \<and> wizard_enabled e' w0 \<and> wizard_step e' w0 = Inr w1
        \<longrightarrow> referentially_intact (formData w1))"
  using single_reachable_intact wizard_reachable_intact single_step_intact wizard_step_intact
  by blast

theorem referential_integrity_invariant_witness:
  "single_reachable example_single_taxonomy
   \<and> referentially_intact (formData example_single_taxonomy)
   \<and> wizard_reachable example_details
   \<and> referentially_intact (formData example_details)
   \<and> single_enabled (Input (Field (SubDivision ''Sub-Division A2''))) example_single_taxonomy
   \<and> single_step (Input (Field (SubDivision ''Sub-Division A2''))) example_single_taxonomy =
       Inr (example_single_taxonomy\<lparr>formData :=
              NcoSingleForm_initial\<lparr>division := ''Division A'',
                subDivision := ''Sub-Division A2''\<rparr>\<rparr>)
   \<and> referentially_intact (NcoSingleForm_initial\<lparr>division := ''Division A'',
         subDivision := ''Sub-Division A2''\<rparr>)
   \<and> wizard_enabled (DetailsInput (SubDivision ''Sub-Division A2'')) example_details
   \<and> wizard_step (DetailsInput (SubDivision ''Sub-Division A2'')) example_details =
       Inr (example_details\<lparr>formData :=
              example_record\<lparr>subDivision := ''Sub-Division A2'', group := [], family := []\<rparr>\<rparr>)
   \<and> referentially_intact
         (example_record\<lparr>subDivision := ''Sub-Division A2'', group := [], family := []\<rparr>)"
proof -
  let ?e = "Input (Field (SubDivision ''Sub-Division A2''))"
  let ?s1 = "example_single_taxonomy\<lparr>formData :=
              NcoSingleForm_initial\<lparr>division := ''Division A'',
                subDivision := ''Sub-Division A2''\<rparr>\<rparr>"
  let ?e' = "DetailsInput (SubDivision ''Sub-Division A2'')"
  let ?w1 = "example_details\<lparr>formData :=
              example_record\<lparr>subDivision := ''Sub-Division A2'', group := [], family := []\<rparr>\<rparr>"
  have a: "single_enabled ?e example_single_taxonomy"
    by (simp add: example_single_taxonomy_def NcoSingleForm_initial_def run_defs)
  have b: "single_step ?e example_single_taxonomy = Inr ?s1"
    by (simp add: NcoSingleForm_updateField_def example_single_taxonomy_def
          NcoSingleForm_initial_def run_defs)
  have c: "wizard_enabled ?e' example_details"
    by (simp add: example_details_def example_record_def run_defs)
  have d: "wizard_step ?e' example_details = Inr ?w1"
    by (simp add: NcoFormDetails_updateField_def example_details_def example_record_def
          run_defs)
  show ?thesis
    using referential_integrity_invariant
            [of example_single_taxonomy example_details example_single_taxonomy ?e ?s1
                example_details ?e' ?w1]
          example_single_taxonomy_reachable example_details_reachable a b c d
    by (simp add: example_single_taxonomy_def example_details_def)
qed

section \<open>When an event throws\<close>

text \<open>
  No sub-division of the table is listed under two divisions. So in an intact state an
  offered event throws exactly when it is the change of division described by
  \<open>crashing_change\<close>; every other offered event yields a state.
\<close>

lemma foreign_subDivision:
  "map_of ncoData d = Some dd \<Longrightarrow> s \<in> set (Object_keys dd) \<Longrightarrow> map_of ncoData d' = Some dd'
   \<Longrightarrow> d' \<noteq> d \<Longrightarrow> map_of dd' s = None"
  by (auto simp: ncoData_def Object_keys_def split: if_splits)

lemma division_render_throws_iff:
  assumes "referentially_intact fd" and "d \<in> set ([] # divisions)" and "d \<noteq> division fd"
  shows "render_memos (Some (deps_of fd)) (fd\<lparr>division := d\<rparr>) = Inl TypeError
         \<longleftrightarrow> d \<noteq> [] \<and> subDivision fd \<noteq> [] \<and> group fd \<noteq> []"
proof (cases "d = [] \<or> subDivision fd = [] \<or> group fd = []")
  case True
  then show ?thesis using assms(2) by (auto simp: division_option_renders)
next
  case False
  then have d: "d \<in> set divisions" and s: "subDivision fd \<noteq> []" and g: "group fd \<noteq> []"
    using assms(2) by auto
  obtain dd' where dd': "map_of ncoData d = Some dd'"
    using d by (auto simp: divisions_def dest: key_lookup)
  obtain dd where dd: "map_of ncoData (division fd) = Some dd"
    and sk: "subDivision fd \<in> set (Object_keys dd)"
    using assms(1) s by (auto simp: referentially_intact_def split: option.splits)
  have "map_of dd' (subDivision fd) = None"
    using foreign_subDivision [OF dd sk dd' assms(3)] .
  then have "families (fd\<lparr>division := d\<rparr>) = Inl TypeError"
    using False dd' by (simp add: families_def)
  then show ?thesis
    using False assms(3) dd' by (simp add: render_memos_def changed_defs deps_of_def groups_def)
qed

lemma offered_update_renders:
  assumes "referentially_intact fd" and "offered f fd" and "\<forall>d. f \<noteq> Division d"
  shows "render_memos (Some (deps_of fd)) (assign_field f fd) = Inr ()"
proof (cases f)
  case (Division d)
  then show ?thesis using assms(3) by simp
next
  case (SubDivision s)
  then show ?thesis using assms(1,2)
    by (auto simp: render_memos_def changed_defs deps_of_def groups_def families_def
          subDivisions_def referentially_intact_def
          split: option.splits if_splits dest!: key_lookup)
next
  case (Group g)
  then show ?thesis using assms(1,2)
    by (auto simp: render_memos_def changed_defs deps_of_def groups_def families_def
          shown_def referentially_intact_def
          split: option.splits if_splits dest!: key_lookup)
qed (simp_all add: render_memos_def changed_defs deps_of_def)


lemma update_throws_iff:
  assumes "referentially_intact fd" and "offered f fd"
      and "\<forall>d. f = Division d \<longrightarrow> d \<in> set ([] # divisions)"
  shows "settle v (deps_of fd) (assign_field f fd) = Inl TypeError \<longleftrightarrow> crashing_change f fd"
proof (cases "\<exists>d. f = Division d")
  case True
  then obtain d where f: "f = Division d" by blast
  show ?thesis
  proof (cases "d = division fd")
    case True
    then show ?thesis using f by (simp add: settle_eq render_quiet crashing_change_def)
  next
    case False
    then show ?thesis
      using f assms(1,3) division_render_throws_iff [of fd d]
      by (simp add: settle_eq crashing_change_def)
  qed
next
  case False
  then have "render_memos (Some (deps_of fd)) (assign_field f fd) = Inr ()"
    using assms(1,2) by (simp add: offered_update_renders)
  then show ?thesis
    using False by (cases f) (simp_all add: settle_eq crashing_change_def)
qed

lemma details_offers_division:
  "details_offers (Division d) fd \<Longrightarrow> d \<in> set ([] # divisions)"
  by (simp add: FormSelect_offers_def select_offers_def)

lemma wizard_step_throws_iff:
  assumes "referentially_intact (formData s)" and "wizard_enabled e s"
  shows "wizard_step e s = Inl TypeError
         \<longleftrightarrow> (\<exists>f. e = DetailsInput f \<and> crashing_change f (formData s))"
proof (cases e)
  case (DetailsInput f)
  have "offered f (formData s)"
    and "\<forall>d. f = Division d \<longrightarrow> d \<in> set ([] # divisions)"
    using assms(2) DetailsInput by (auto dest: details_offers_offered details_offers_division)
  then have "settle Wizard (deps_of (formData s)) (assign_field f (formData s)) = Inl TypeError
      \<longleftrightarrow> crashing_change f (formData s)"
    using assms(1) by (simp add: update_throws_iff)
  then show ?thesis
    using DetailsInput by (auto simp: NcoFormDetails_updateField_def split: sum.splits)
next
  case Back
  then show ?thesis
    using assms(1)
    by (simp add: NcoAdminApp_handleBack_def show_details_def mount_eq intact_renders)
next
  case SubmitEntry
  have "render_memos None NcoAdminApp_initial = Inr ()"
    by (simp add: render_memos_def groups_def families_def NcoAdminApp_initial_def)
  then show ?thesis
    using SubmitEntry
    by (simp add: NcoFormReview_handleSubmitReview_def NcoAdminApp_handleSubmit_def
          show_details_def mount_eq Let_def)
qed simp_all

lemma single_enabled_division:
  "single_enabled (Input (Field (Division d))) s \<Longrightarrow> d \<in> set ([] # divisions)"
  by (simp add: select_offers_def)

lemma single_step_throws_iff:
  assumes "referentially_intact (formData s)" and "single_enabled e s"
  shows "single_step e s = Inl TypeError
         \<longleftrightarrow> (\<exists>f. e = Input (Field f) \<and> crashing_change f (formData s))"
proof (cases e)
  case (Input u)
  show ?thesis
  proof (cases u)
    case (Field f)
    have "offered f (formData s)"
      and "\<forall>d. f = Division d \<longrightarrow> d \<in> set ([] # divisions)"
      using assms(2) Input Field by (auto dest: single_enabled_offered single_enabled_division)
    then have "settle SinglePage (deps_of (formData s)) (assign_field f (formData s))
        = Inl TypeError \<longleftrightarrow> crashing_change f (formData s)"
      using assms(1) by (simp add: update_throws_iff)
    then show ?thesis
      using Input Field
      by (auto simp: NcoSingleForm_updateField_def Let_def split: sum.splits)
  next
    case (Title x)
    have "deps_of ((formData s)\<lparr>title := x\<rparr>) = deps_of (formData s)"
      by (simp add: deps_of_def)
    then have "settle SinglePage (deps_of (formData s)) ((formData s)\<lparr>title := x\<rparr>)
        = Inr ((formData s)\<lparr>title := x\<rparr>)"
      using settle_quiet [of SinglePage "(formData s)\<lparr>title := x\<rparr>"] by simp
    then show ?thesis
      using Input Title by (simp add: NcoSingleForm_updateField_def Let_def)
  qed
next
  case Submit
  then show ?thesis
    by (simp add: NcoSingleForm_handleSubmit_def Let_def settle_quiet)
qed

section \<open>Changing the division\<close>

text \<open>
  When the render after the update completes, the effects clear the three lower
  levels: the single page in one effect, from any record; the wizard one level per
  effect, each effect running only when its own level changed, which clears all three
  from every referentially intact record.
\<close>

lemma division_change_when_rendered:
  assumes "d \<in> set ([] # divisions)"
  shows "(d \<noteq> division (formData s)
          \<and> (d = [] \<or> subDivision (formData s) = [] \<or> group (formData s) = [])
          \<longrightarrow> (\<exists>s'. NcoSingleForm_updateField (Field (Division d)) s = Inr s'
                 \<and> formData s' = (formData s)\<lparr>division := d, subDivision := [], group := [],
                                                family := []\<rparr>))
   \<and> (d \<noteq> division (formData w) \<and> referentially_intact (formData w)
        \<and> (d = [] \<or> subDivision (formData w) = [] \<or> group (formData w) = [])
        \<longrightarrow> NcoFormDetails_updateField (Division d) w =
              Inr (w\<lparr>formData := (formData w)\<lparr>division := d, subDivision := [], group := [],
                                                 family := []\<rparr>\<rparr>))"
proof (intro conjI impI)
  assume a: "d \<noteq> division (formData s)
      \<and> (d = [] \<or> subDivision (formData s) = [] \<or> group (formData s) = [])"
  then have "render_memos (Some (deps_of (formData s))) ((formData s)\<lparr>division := d\<rparr>) = Inr ()"
    using assms by (simp add: division_option_renders)
  then show "\<exists>s'. NcoSingleForm_updateField (Field (Division d)) s = Inr s'
      \<and> formData s' = (formData s)\<lparr>division := d, subDivision := [], group := [], family := []\<rparr>"
    using a by (simp add: NcoSingleForm_updateField_def Let_def settle_eq cascade_division_single)
next
  assume a: "d \<noteq> division (formData w) \<and> referentially_intact (formData w)
      \<and> (d = [] \<or> subDivision (formData w) = [] \<or> group (formData w) = [])"
  then have "render_memos (Some (deps_of (formData w))) ((formData w)\<lparr>division := d\<rparr>) = Inr ()"
    using assms by (simp add: division_option_renders)
  then show "NcoFormDetails_updateField (Division d) w =
      Inr (w\<lparr>formData := (formData w)\<lparr>division := d, subDivision := [], group := [],
                                         family := []\<rparr>\<rparr>)"
    using a by (simp add: NcoFormDetails_updateField_def settle_eq cascade_division)
qed

text \<open>
  Claim C2. Changing the division, on either page and whatever the prior record, is to
  yield a state with \<^verbatim>\<open>subDivision\<close>, \<^verbatim>\<open>group\<close> and \<^verbatim>\<open>family\<close> empty. With a
  sub-division and a group selected the code yields no state: the render that follows
  the update evaluates \<^verbatim>\<open>families\<close> on the new division with the old sub-division,
  which throws before any effect has run. Both pages reach such a state and offer the
  change.
\<close>

theorem division_change_throws_before_clearing:
  "single_reachable example_single_taxonomy
   \<and> single_enabled (Input (Field (Division ''Division B''))) example_single_taxonomy
   \<and> NcoSingleForm_updateField (Field (Division ''Division B'')) example_single_taxonomy
       = Inl TypeError
   \<and> wizard_reachable example_details
   \<and> wizard_enabled (DetailsInput (Division ''Division B'')) example_details
   \<and> NcoFormDetails_updateField (Division ''Division B'') example_details = Inl TypeError"
  using example_single_taxonomy_reachable example_details_reachable
  by (simp add: example_single_taxonomy_def NcoSingleForm_initial_def example_details_def
        example_record_def NcoSingleForm_updateField_def NcoFormDetails_updateField_def run_defs)

section \<open>The option lists on a path that is not in the table\<close>

text \<open>
  Claim C7 says the family list is empty whenever an ancestor on the path is absent
  from the table. \<^verbatim>\<open>families\<close> reads \<^verbatim>\<open>subDivisionData[formData.group]\<close> without the
  guard that \<^verbatim>\<open>subDivisions\<close> and \<^verbatim>\<open>groups\<close> put on their lookups, so for a
  sub-division that is not under the division it throws. The pages reach that input:
  with a sub-division and a group selected, changing the division renders the new
  division with the old sub-division before any effect has run.
\<close>

theorem families_throws_on_foreign_subDivision:
  "families (example_record\<lparr>division := ''Division B''\<rparr>) = Inl TypeError
   \<and> wizard_reachable example_details
   \<and> wizard_enabled (DetailsInput (Division ''Division B'')) example_details
   \<and> wizard_step (DetailsInput (Division ''Division B'')) example_details = Inl TypeError"
  using example_details_reachable
  by (simp add: example_record_def example_details_def NcoFormDetails_updateField_def run_defs)

lemma single_division_change_throws:
  "single_reachable (example_single_taxonomy)
   \<and> single_enabled (Input (Field (Division ''Division B''))) example_single_taxonomy
   \<and> single_step (Input (Field (Division ''Division B''))) example_single_taxonomy = Inl TypeError"
  using example_single_taxonomy_reachable
  by (simp add: example_single_taxonomy_def NcoSingleForm_initial_def
        NcoSingleForm_updateField_def run_defs)

section \<open>Going back from the review step\<close>

text \<open>
  Claim C10. Going back from the review step mounts the details form again; its three
  effects run as on a first render and clear \<^verbatim>\<open>subDivision\<close>, \<^verbatim>\<open>group\<close> and
  \<^verbatim>\<open>family\<close>, while the code, the division, the description and the confidence keep
  their values. The record no longer passes the details validation. (Stated for every
  referentially intact record, which every reachable one is.)
\<close>

theorem back_clears_lower_levels:
  assumes "currentStep s = 2" and "referentially_intact (formData s)"
  shows "NcoAdminApp_handleBack s =
           Inr (s\<lparr>formData := (formData s)\<lparr>subDivision := [], group := [], family := []\<rparr>,
                  errorsState := [], currentStep := 1\<rparr>)
   \<and> ncoCode ((formData s)\<lparr>subDivision := [], group := [], family := []\<rparr>) = ncoCode (formData s)
   \<and> division ((formData s)\<lparr>subDivision := [], group := [], family := []\<rparr>)
       = division (formData s)
   \<and> description ((formData s)\<lparr>subDivision := [], group := [], family := []\<rparr>)
       = description (formData s)
   \<and> confidence ((formData s)\<lparr>subDivision := [], group := [], family := []\<rparr>)
       = confidence (formData s)
   \<and> \<not> isValid (validateNcoDetails
           ((formData s)\<lparr>subDivision := [], group := [], family := []\<rparr>))"
  using assms
  by (simp add: NcoAdminApp_handleBack_def show_details_def mount_eq intact_renders
        isValid_validateNcoDetails)

theorem back_clears_lower_levels_witness:
  "currentStep example_review = 2
   \<and> referentially_intact (formData example_review)
   \<and> NcoAdminApp_handleBack example_review =
       Inr \<lparr>formData = \<lparr>ncoCode = ''1111'', division = ''Division A'', subDivision = [],
                          group = [], family = [], description = ''Plans and directs work.'',
                          confidence = [75]\<rparr>,
            errorsState = [], notifications = [], currentStep = 1\<rparr>"
proof -
  have a: "currentStep example_review = 2"
    by (simp add: example_review_def)
  have b: "referentially_intact (formData example_review)"
    using example_review_reachable by (rule wizard_reachable_intact)
  show ?thesis
    using a b back_clears_lower_levels [OF a b]
    by (simp add: example_review_def example_record_def)
qed

section \<open>The description suggestion and the rest of the record\<close>

text \<open>
  Claim C8, as amended. When the service resolves with \<^verbatim>\<open>success\<close> and a non-empty
  description, the description of the record is overwritten with that text, every
  other field keeps its value, and a success toast is raised. When the promise is
  rejected, or resolves without \<^verbatim>\<open>success\<close>, or resolves with an empty description,
  the whole record is unchanged and only the error toast is raised. The \<^verbatim>\<open>errors\<close>
  state and the step are never touched.
\<close>

theorem suggestion_writes_only_description:
  assumes "service (division (formData clicked), subDivision (formData clicked),
                    group (formData clicked), family (formData clicked)) = result"
      and "s' = NcoFormReview_handleSuggestDescription service clicked current"
  shows "(\<forall>text. result = Resolved True text \<and> text \<noteq> [] \<longrightarrow>
            description (formData s') = text
          \<and> ncoCode (formData s') = ncoCode (formData current)
          \<and> division (formData s') = division (formData current)
          \<and> subDivision (formData s') = subDivision (formData current)
          \<and> group (formData s') = group (formData current)
          \<and> family (formData s') = family (formData current)
          \<and> confidence (formData s') = confidence (formData current)
          \<and> notifications s' = notifications current @
                [Toast ''success'' ''Suggestion Ready''
                   ''An AI-generated description has been populated.''])
       \<and> (result = Rejected \<or> result = Resolved True [] \<or> (\<exists>text. result = Resolved False text) \<longrightarrow>
            formData s' = formData current
          \<and> notifications s' = notifications current @
                [Toast ''error'' ''Suggestion Failed''
                   ''Could not generate a description. Please try again.''])
       \<and> errorsState s' = errorsState current \<and> currentStep s' = currentStep current"
  using assms
  by (auto simp: NcoFormReview_handleSuggestDescription_def suggestion_settled_def
        suggestion_failed_def split: suggestion.splits)

theorem suggestion_writes_only_description_witness:
  "description (formData (NcoFormReview_handleSuggestDescription getNcoDescriptionSuggestion
       example_review example_review)) =
     ''Professional role in Family A1-1-1 within Group A1-1. Responsibilities include specialized tasks related to Division A operations and Sub-Division A1 management.''
   \<and> family (formData (NcoFormReview_handleSuggestDescription getNcoDescriptionSuggestion
       example_review example_review)) = ''Family A1-1-1''
   \<and> formData (NcoFormReview_handleSuggestDescription (\<lambda>r. Rejected) example_review example_review)
       = formData example_review"
  using suggestion_writes_only_description [of getNcoDescriptionSuggestion example_review
      "getNcoDescriptionSuggestion (''Division A'', ''Sub-Division A1'', ''Group A1-1'', ''Family A1-1-1'')"
      "NcoFormReview_handleSuggestDescription getNcoDescriptionSuggestion example_review example_review"
      example_review]
    suggestion_writes_only_description [of "\<lambda>r. Rejected" example_review Rejected
      "NcoFormReview_handleSuggestDescription (\<lambda>r. Rejected) example_review example_review"
      example_review]
  by (simp add: getNcoDescriptionSuggestion_def example_review_def example_record_def)

text \<open>
  The claim as stated fails for a result with \<^verbatim>\<open>success: true\<close> and an empty
  description: the guard \<^verbatim>\<open>result.success && result.description\<close> sends it to the
  failure branch, and the description is not overwritten.
\<close>

theorem suggestion_empty_text_is_a_failure:
  "suggestion_settled (Resolved True []) example_review =
     example_review\<lparr>notifications :=
       [Toast ''error'' ''Suggestion Failed''
          ''Could not generate a description. Please try again.'']\<rparr>
   \<and> description (formData (suggestion_settled (Resolved True []) example_review)) =
       ''Plans and directs work.''"
  by (simp add: suggestion_settled_def suggestion_failed_def example_review_def)

end
